theory Spec2Isabelle
  imports Main "HOL-Library.Sublist"
begin

section \<open>Errors raised by the repository and route layers\<close>

text \<open>
  Every exception the modelled code can raise is a value of \<open>error\<close>:
  \<^item> \<open>IntegrityError\<close>: the store rejects a commit (primary key or unique constraint);
  \<^item> \<open>DataError\<close>: the store rejects a query (negative OFFSET or LIMIT);
  \<^item> \<open>OverflowError\<close>: \<open>date + timedelta\<close> leaves the range of \<open>date\<close>;
  \<^item> \<open>AttributeError\<close>: an attribute of \<open>None\<close> is assigned;
  \<^item> \<open>HTTPException status detail\<close>: raised by the route handlers;
  \<^item> \<open>OtherException msg\<close>: any other \<open>Exception\<close>, such as a failure of the avatar lookup.
\<close>

datatype error =
    IntegrityError
  | DataError
  | OverflowError
  | AttributeError
  | HTTPException nat string
  | OtherException string

section \<open>Dates\<close>

text \<open>
  \<open>datetime.date\<close>: a day of the proleptic Gregorian calendar, years 1 to 9999.
  \<open>date + timedelta(days=n)\<close> for \<open>n \<ge> 0\<close> is \<open>n\<close> steps to the next calendar day, and
  raises \<open>OverflowError\<close> past year 9999.
\<close>

record date =
  year :: nat
  month :: nat
  day :: nat

definition is_leap :: "nat \<Rightarrow> bool" where
  "is_leap y = (y mod 4 = 0 \<and> (y mod 400 = 0 \<or> y mod 100 \<noteq> 0))"

definition days_in_month :: "nat \<Rightarrow> nat \<Rightarrow> nat" where
  "days_in_month y m =
     (if m = 2 then (if is_leap y then 29 else 28)
      else if m = 4 \<or> m = 6 \<or> m = 9 \<or> m = 11 then 30
      else 31)"

definition next_day :: "date \<Rightarrow> date" where
  "next_day d =
     (if day d < days_in_month (year d) (month d) then d\<lparr>day := day d + 1\<rparr>
      else if month d < 12 then d\<lparr>month := month d + 1, day := 1\<rparr>
      else \<lparr>year = year d + 1, month = 1, day = 1\<rparr>)"

fun add_days :: "date \<Rightarrow> nat \<Rightarrow> date" where
  "add_days d 0 = d"
| "add_days d (Suc n) = add_days (next_day d) n"

definition date_plus_timedelta :: "date \<Rightarrow> nat \<Rightarrow> error + date" where
  "date_plus_timedelta d n =
     (let r = add_days d n in if 9999 < year r then Inl OverflowError else Inr r)"

section \<open>Decimal strings\<close>

text \<open>Python's \<open>str\<close> on a non-negative integer, and the store's cast of a day or month
  number to a string: the decimal digits without padding.\<close>

definition digit_char :: "nat \<Rightarrow> char" where
  "digit_char n = char_of (48 + n)"

fun str_nat :: "nat \<Rightarrow> string" where
  "str_nat n = (if n < 10 then [digit_char n] else str_nat (n div 10) @ [digit_char (n mod 10)])"

declare str_nat.simps [simp del]

section \<open>Rows and request bodies\<close>

text \<open>
  \<open>Contact\<close> is a row of the \<open>contacts\<close> table: the columns of the initial migration plus
  the owner column \<open>user_id\<close> that every repository function reads or writes.
  The description column is nullable. \<open>ContactModel\<close> is the request body of
  \<open>schemas.py\<close>; \<open>ContactUpdate\<close> inherits all of its fields and adds none.
\<close>

record Contact =
  c_id :: int
  c_name :: string
  c_surname :: string
  c_email :: string
  c_phone :: string
  c_birthday :: date
  c_description :: "string option"
  c_user_id :: int

record ContactModel =
  b_name :: string
  b_surname :: string
  b_email :: string
  b_phone :: string
  b_birthday :: date
  b_description :: string

type_synonym ContactUpdate = ContactModel

text \<open>The field limits that \<open>schemas.py\<close> puts on a contact body.\<close>

definition ContactModel_valid :: "ContactModel \<Rightarrow> bool" where
  "ContactModel_valid body =
     (length (b_name body) \<le> 50 \<and> length (b_surname body) \<le> 50 \<and>
      length (b_email body) \<le> 100 \<and> length (b_phone body) \<le> 15 \<and>
      length (b_description body) \<le> 150)"

text \<open>
  Modelled from the spec: the \<open>User\<close> row (its declaration, \<open>src/database/models.py\<close>, is
  not among the sources): identifier, username, unique email, password hash, nullable
  avatar URL, confirmed flag, nullable refresh token, creation timestamp.
  \<open>UserModel\<close> is the signup body of \<open>schemas.py\<close>.
\<close>

record User =
  u_id :: int
  u_username :: string
  u_email :: string
  u_password :: string
  u_avatar :: "string option"
  u_confirmed :: bool
  u_refresh_token :: "string option"
  u_created_at :: nat

record UserModel =
  m_username :: string
  m_email :: string
  m_password :: string

section \<open>The store\<close>

text \<open>
  The session's view of one table: its rows in store order and the sequence that
  generates the next primary key. \<open>first\<close> is the query's \<open>.first()\<close>: the first row of
  the result, or \<open>None\<close>.
\<close>

record contacts_db =
  contacts :: "Contact list"
  contacts_seq :: int

record users_db =
  users :: "User list"
  users_seq :: int

definition first :: "'a list \<Rightarrow> 'a option" where
  "first xs = (case xs of [] \<Rightarrow> None | x # _ \<Rightarrow> Some x)"

text \<open>
  The store's \<open>LIKE\<close>, compared character by character and case-sensitively; the first
  argument is the pattern. In a pattern, \<open>%\<close> matches any run of characters and \<open>_\<close>
  matches exactly one character. The queries give no \<open>ESCAPE\<close> clause, so the store's
  default escape character, the backslash (\<open>CHR 0x5C\<close>), applies: a backslash makes the
  pattern character after it match itself and nothing else, also when that character is
  \<open>%\<close>, \<open>_\<close> or a backslash. Every other character matches itself. A string is the
  sequence of the characters of the text.

  A pattern that ends in a backslash with no character after it is not well escaped; the
  store refuses to match it, and \<open>like\<close> lets it match nothing. The patterns that the
  repository builds end in \<open>%\<close> and are always well escaped.
\<close>

fun like :: "string \<Rightarrow> string \<Rightarrow> bool" where
  "like [] [] = True"
| "like [] (c # cs) = False"
| "like (p # ps) [] = (p = CHR ''%'' \<and> like ps [])"
| "like (p # ps) (c # cs) =
     (if p = CHR 0x5C then (case ps of [] \<Rightarrow> False | q # qs \<Rightarrow> q = c \<and> like qs cs)
      else if p = CHR ''%'' then like ps (c # cs) \<or> like (p # ps) cs
      else (p = CHR ''_'' \<or> p = c) \<and> like ps cs)"

fun well_escaped :: "string \<Rightarrow> bool" where
  "well_escaped [] = True"
| "well_escaped [p] = (p \<noteq> CHR 0x5C)"
| "well_escaped (p # q # ps) = (if p = CHR 0x5C then well_escaped ps else well_escaped (q # ps))"

section \<open>Contact repository (src/repository/contacts.py)\<close>

text \<open>
  Every function takes the calling user and the store; a function that commits returns
  the store it leaves behind, and a rejected commit leaves the store as it was.
  \<open>get_contacts\<close> pages the user's rows with \<open>OFFSET skip LIMIT limit\<close>; the store
  rejects a negative offset or limit.
\<close>

definition get_contacts :: "int \<Rightarrow> int \<Rightarrow> User \<Rightarrow> contacts_db \<Rightarrow> error + Contact list" where
  "get_contacts skip limit user db =
     (if skip < 0 \<or> limit < 0 then Inl DataError
      else Inr (take (nat limit) (drop (nat skip)
             (filter (\<lambda>c. c_user_id c = u_id user) (contacts db)))))"

definition get_contact :: "int \<Rightarrow> User \<Rightarrow> contacts_db \<Rightarrow> Contact option" where
  "get_contact contact_id user db =
     first (filter (\<lambda>c. c_id c = contact_id \<and> c_user_id c = u_id user) (contacts db))"

definition get_contacts_name :: "string \<Rightarrow> User \<Rightarrow> contacts_db \<Rightarrow> Contact list" where
  "get_contacts_name name user db =
     filter (\<lambda>c. like (''%'' @ name @ ''%'') (c_name c) \<and> c_user_id c = u_id user) (contacts db)"

definition get_contacts_surname :: "string \<Rightarrow> User \<Rightarrow> contacts_db \<Rightarrow> Contact list" where
  "get_contacts_surname surname user db =
     filter (\<lambda>c. like (''%'' @ surname @ ''%'') (c_surname c) \<and> c_user_id c = u_id user)
       (contacts db)"

definition get_contacts_email :: "string \<Rightarrow> User \<Rightarrow> contacts_db \<Rightarrow> Contact list" where
  "get_contacts_email email_part user db =
     filter (\<lambda>c. like (''%'' @ email_part @ ''%'') (c_email c) \<and> c_user_id c = u_id user)
       (contacts db)"

text \<open>
  \<open>get_contacts_birthday\<close>: the loop over \<open>range(7)\<close> appends, for each of the seven days
  from today, the string \<open>str(day.day) + str(day.month)\<close>; the query keeps the user's rows
  whose concatenated day and month strings are among them. The current date is the
  parameter \<open>today\<close>.
\<close>

fun days_loop :: "date \<Rightarrow> nat list \<Rightarrow> string list \<Rightarrow> error + string list" where
  "days_loop today [] days = Inr days"
| "days_loop today (i # rest) days =
     (case date_plus_timedelta today i of
        Inl e \<Rightarrow> Inl e
      | Inr d \<Rightarrow> days_loop today rest (days @ [str_nat (day d) @ str_nat (month d)]))"

definition get_contacts_birthday :: "date \<Rightarrow> User \<Rightarrow> contacts_db \<Rightarrow> error + Contact list" where
  "get_contacts_birthday today user db =
     (case days_loop today [0..<7] [] of
        Inl e \<Rightarrow> Inl e
      | Inr days \<Rightarrow>
          Inr (filter (\<lambda>c. str_nat (day (c_birthday c)) @ str_nat (month (c_birthday c)) \<in> set days
                         \<and> c_user_id c = u_id user) (contacts db)))"

text \<open>
  \<open>create_contact\<close>: the new row takes its id from the sequence; the commit is rejected
  with \<open>IntegrityError\<close>, and nothing is stored, when the id, the email or the phone is
  already held by a row (primary key and the two unique constraints of the migration).
\<close>

definition create_contact ::
  "ContactModel \<Rightarrow> User \<Rightarrow> contacts_db \<Rightarrow> (error + Contact) \<times> contacts_db" where
  "create_contact body user db =
     (let contact = \<lparr>c_id = contacts_seq db, c_name = b_name body, c_surname = b_surname body,
                     c_email = b_email body, c_phone = b_phone body,
                     c_birthday = b_birthday body, c_description = Some (b_description body),
                     c_user_id = u_id user\<rparr>
      in if c_id contact \<in> set (map c_id (contacts db))
            \<or> c_email contact \<in> set (map c_email (contacts db))
            \<or> c_phone contact \<in> set (map c_phone (contacts db))
         then (Inl IntegrityError, db)
         else (Inr contact,
               db\<lparr>contacts := contacts db @ [contact], contacts_seq := contacts_seq db + 1\<rparr>))"

definition remove_contact ::
  "int \<Rightarrow> User \<Rightarrow> contacts_db \<Rightarrow> (error + Contact option) \<times> contacts_db" where
  "remove_contact contact_id user db =
     (case first (filter (\<lambda>c. c_id c = contact_id \<and> c_user_id c = u_id user) (contacts db)) of
        None \<Rightarrow> (Inr None, db)
      | Some contact \<Rightarrow>
          (Inr (Some contact),
           db\<lparr>contacts := filter (\<lambda>r. c_id r \<noteq> c_id contact) (contacts db)\<rparr>))"

text \<open>
  \<open>update_contact\<close>: the six assignments on the loaded object, then the commit, which
  writes the six columns of the row with the object's primary key and is rejected when
  another row holds the new email or phone.
\<close>

definition assign_fields :: "ContactUpdate \<Rightarrow> Contact \<Rightarrow> Contact" where
  "assign_fields body contact =
     contact\<lparr>c_name := b_name body, c_surname := b_surname body, c_email := b_email body,
             c_phone := b_phone body, c_birthday := b_birthday body,
             c_description := Some (b_description body)\<rparr>"

definition update_contact ::
  "int \<Rightarrow> ContactUpdate \<Rightarrow> User \<Rightarrow> contacts_db \<Rightarrow> (error + Contact option) \<times> contacts_db" where
  "update_contact contact_id body user db =
     (case first (filter (\<lambda>c. c_id c = contact_id \<and> c_user_id c = u_id user) (contacts db)) of
        None \<Rightarrow> (Inr None, db)
      | Some contact \<Rightarrow>
          if list_ex (\<lambda>r. c_id r \<noteq> c_id contact \<and>
                (c_email r = b_email body \<or> c_phone r = b_phone body)) (contacts db)
          then (Inl IntegrityError, db)
          else (Inr (Some (assign_fields body contact)),
                db\<lparr>contacts := map (\<lambda>r. if c_id r = c_id contact then assign_fields body r else r)
                                  (contacts db)\<rparr>))"

section \<open>User repository (src/repository/users.py)\<close>

definition get_user_by_email :: "string \<Rightarrow> users_db \<Rightarrow> User option" where
  "get_user_by_email email db = first (filter (\<lambda>u. u_email u = email) (users db))"

text \<open>
  \<open>create_user\<close>: the avatar lookup is the parameter \<open>gravatar\<close>, which returns a URL or
  raises; the \<open>try\<close> block turns every exception into \<open>avatar = None\<close>. The new row is
  unconfirmed, has no refresh token, and takes its creation time from the parameter
  \<open>now\<close>. The commit is rejected when the id or the email is already held (the
  specification's data model: the email of a user is unique).
\<close>

definition create_user ::
  "UserModel \<Rightarrow> (string \<Rightarrow> error + string) \<Rightarrow> nat \<Rightarrow> users_db \<Rightarrow> (error + User) \<times> users_db" where
  "create_user body gravatar now db =
     (let avatar = (case gravatar (m_email body) of Inl e \<Rightarrow> None | Inr url \<Rightarrow> Some url);
          new_user = \<lparr>u_id = users_seq db, u_username = m_username body,
                      u_email = m_email body, u_password = m_password body,
                      u_avatar = avatar, u_confirmed = False, u_refresh_token = None,
                      u_created_at = now\<rparr>
      in if u_id new_user \<in> set (map u_id (users db))
            \<or> u_email new_user \<in> set (map u_email (users db))
         then (Inl IntegrityError, db)
         else (Inr new_user,
               db\<lparr>users := users db @ [new_user], users_seq := users_seq db + 1\<rparr>))"

text \<open>
  \<open>confirmed_email\<close> and \<open>update_avatar\<close> assign an attribute of the looked-up user
  without testing it for \<open>None\<close>; the assignment on \<open>None\<close> raises \<open>AttributeError\<close>.
\<close>

definition confirmed_email :: "string \<Rightarrow> users_db \<Rightarrow> (error + unit) \<times> users_db" where
  "confirmed_email email db =
     (case get_user_by_email email db of
        None \<Rightarrow> (Inl AttributeError, db)
      | Some user \<Rightarrow>
          (Inr (),
           db\<lparr>users := map (\<lambda>r. if u_id r = u_id user then r\<lparr>u_confirmed := True\<rparr> else r)
                          (users db)\<rparr>))"

definition update_avatar :: "string \<Rightarrow> string \<Rightarrow> users_db \<Rightarrow> (error + User) \<times> users_db" where
  "update_avatar email url db =
     (case get_user_by_email email db of
        None \<Rightarrow> (Inl AttributeError, db)
      | Some user \<Rightarrow>
          (Inr (user\<lparr>u_avatar := Some url\<rparr>),
           db\<lparr>users := map (\<lambda>r. if u_id r = u_id user then r\<lparr>u_avatar := Some url\<rparr> else r)
                          (users db)\<rparr>))"

section \<open>Search routes (src/routes/contacts.py)\<close>

text \<open>
  The handlers behind \<open>/contacts/search/name\<close>, \<open>/surname\<close> and \<open>/email\<close>, called with the
  authenticated user: an empty result of the repository raises
  \<open>HTTPException(404, "Contact not found")\<close>.
\<close>

definition read_contacts_name :: "string \<Rightarrow> contacts_db \<Rightarrow> User \<Rightarrow> error + Contact list" where
  "read_contacts_name name db current_user =
     (let cs = get_contacts_name name current_user db
      in if cs = [] then Inl (HTTPException 404 ''Contact not found'') else Inr cs)"

definition read_contacts_surname :: "string \<Rightarrow> contacts_db \<Rightarrow> User \<Rightarrow> error + Contact list" where
  "read_contacts_surname surname db current_user =
     (let cs = get_contacts_surname surname current_user db
      in if cs = [] then Inl (HTTPException 404 ''Contact not found'') else Inr cs)"

definition read_contacts_email :: "string \<Rightarrow> contacts_db \<Rightarrow> User \<Rightarrow> error + Contact list" where
  "read_contacts_email email db current_user =
     (let cs = get_contacts_email email current_user db
      in if cs = [] then Inl (HTTPException 404 ''Contact not found'') else Inr cs)"

section \<open>Well-formed stores\<close>

text \<open>
  What the primary key, the unique constraints and the id sequence guarantee of every
  state of the store: ids, emails and phones are pairwise different, and every id was
  drawn from the sequence.
\<close>

definition contacts_inv :: "contacts_db \<Rightarrow> bool" where
  "contacts_inv db =
     (distinct (map c_id (contacts db)) \<and> distinct (map c_email (contacts db)) \<and>
      distinct (map c_phone (contacts db)) \<and> list_all (\<lambda>c. c_id c < contacts_seq db) (contacts db))"

definition users_inv :: "users_db \<Rightarrow> bool" where
  "users_inv db =
     (distinct (map u_id (users db)) \<and> distinct (map u_email (users db)) \<and>
      list_all (\<lambda>u. u_id u < users_seq db) (users db))"

definition empty_contacts_db :: contacts_db where
  "empty_contacts_db = \<lparr>contacts = [], contacts_seq = 1\<rparr>"

definition empty_users_db :: users_db where
  "empty_users_db = \<lparr>users = [], users_seq = 1\<rparr>"

section \<open>Sample data\<close>

text \<open>Two users, the contact body of the specification's scenario, and the store that
  holds the contact created from it by the first user.\<close>

definition user_a :: User where
  "user_a = \<lparr>u_id = 1, u_username = ''alice'', u_email = ''alice@example.com'',
             u_password = ''hash-a'', u_avatar = None, u_confirmed = True,
             u_refresh_token = None, u_created_at = 0\<rparr>"

definition user_b :: User where
  "user_b = \<lparr>u_id = 2, u_username = ''bobby'', u_email = ''bob@example.com'',
             u_password = ''hash-b'', u_avatar = None, u_confirmed = True,
             u_refresh_token = None, u_created_at = 5\<rparr>"

definition test_body :: ContactModel where
  "test_body = \<lparr>b_name = ''Test'', b_surname = ''Contact'', b_email = ''test@example.com'',
                b_phone = ''+380971234567'',
                b_birthday = \<lparr>year = 1990, month = 5, day = 15\<rparr>, b_description = ''''\<rparr>"

definition test_contact :: Contact where
  "test_contact = \<lparr>c_id = 1, c_name = ''Test'', c_surname = ''Contact'',
                   c_email = ''test@example.com'', c_phone = ''+380971234567'',
                   c_birthday = \<lparr>year = 1990, month = 5, day = 15\<rparr>,
                   c_description = Some '''', c_user_id = 1\<rparr>"

definition test_db :: contacts_db where
  "test_db = \<lparr>contacts = [test_contact], contacts_seq = 2\<rparr>"

definition test_users_db :: users_db where
  "test_users_db = \<lparr>users = [user_a], users_seq = 2\<rparr>"

text \<open>A contact of the first user named \<open>abc\<close> and born on 1 November, alone in a store.\<close>

definition abc_contact :: Contact where
  "abc_contact = \<lparr>c_id = 1, c_name = ''abc'', c_surname = ''Stone'',
                  c_email = ''abc@example.com'', c_phone = ''+15550101'',
                  c_birthday = \<lparr>year = 1990, month = 11, day = 1\<rparr>,
                  c_description = None, c_user_id = 1\<rparr>"

definition abc_db :: contacts_db where
  "abc_db = \<lparr>contacts = [abc_contact], contacts_seq = 2\<rparr>"

text \<open>A signup body for the second user; a second contact of the first user and the store
  with both contacts; a body with values that no stored contact has.\<close>

definition bob_signup :: UserModel where
  "bob_signup = \<lparr>m_username = ''bobby'', m_email = ''bob@example.com'', m_password = ''hash-b''\<rparr>"

definition second_contact :: Contact where
  "second_contact = \<lparr>c_id = 2, c_name = ''Second'', c_surname = ''Person'',
                     c_email = ''second@example.com'', c_phone = ''+15550102'',
                     c_birthday = \<lparr>year = 1985, month = 2, day = 28\<rparr>,
                     c_description = None, c_user_id = 1\<rparr>"

definition two_db :: contacts_db where
  "two_db = \<lparr>contacts = [test_contact, second_contact], contacts_seq = 3\<rparr>"

definition new_body :: ContactUpdate where
  "new_body = \<lparr>b_name = ''Updated'', b_surname = ''Name'', b_email = ''updated@example.com'',
               b_phone = ''+15550103'',
               b_birthday = \<lparr>year = 1986, month = 3, day = 1\<rparr>, b_description = ''moved''\<rparr>"

text \<open>A contact of the first user whose name is \<open>a\<close>, a backslash, \<open>b\<close>, alone in a
  store.\<close>

definition slash_contact :: Contact where
  "slash_contact = \<lparr>c_id = 1, c_name = [CHR ''a'', CHR 0x5C, CHR ''b''], c_surname = ''Slash'',
                    c_email = ''slash@example.com'', c_phone = ''+15550104'',
                    c_birthday = \<lparr>year = 1992, month = 7, day = 9\<rparr>,
                    c_description = None, c_user_id = 1\<rparr>"

definition slash_db :: contacts_db where
  "slash_db = \<lparr>contacts = [slash_contact], contacts_seq = 2\<rparr>"

section \<open>Queries: basic facts\<close>

lemma first_eq_None [simp]: "first xs = None \<longleftrightarrow> xs = []"
  by (cases xs) (simp_all add: first_def)

lemma first_filter_Some:
  "first (filter P xs) = Some x \<Longrightarrow> P x \<and> x \<in> set xs"
proof -
  assume h: "first (filter P xs) = Some x"
  then have "x \<in> set (filter P xs)"
    by (cases "filter P xs") (simp_all add: first_def)
  then show ?thesis by simp
qed

lemma filter_empty_absent:
  "\<not> (\<exists>c\<in>set xs. P c) \<Longrightarrow> filter P xs = []"
  by (induction xs) auto

lemma first_filter_present:
  "x \<in> set xs \<Longrightarrow> P x \<Longrightarrow> \<exists>y. first (filter P xs) = Some y \<and> P y \<and> y \<in> set xs"
proof -
  assume "x \<in> set xs" "P x"
  then have "filter P xs \<noteq> []" by (auto simp: filter_empty_conv)
  then obtain y ys where e: "filter P xs = y # ys" by (cases "filter P xs") auto
  then have "y \<in> set (filter P xs)" by simp
  then have "P y \<and> y \<in> set xs" by simp
  with e show ?thesis by (simp add: first_def)
qed

lemma first_Nil [simp]: "first [] = None"
  by (simp add: first_def)

lemma first_Cons [simp]: "first (x # xs) = Some x"
  by (simp add: first_def)

lemma filter_map_frame:
  "(\<And>x. x \<in> set xs \<Longrightarrow> f x \<noteq> x \<Longrightarrow> \<not> P x \<and> \<not> P (f x))
   \<Longrightarrow> filter P (map f xs) = filter P xs"
proof (induction xs)
  case Nil
  then show ?case by simp
next
  case (Cons a xs)
  have tl: "filter P (map f xs) = filter P xs"
    by (rule Cons.IH) (simp add: Cons.prems)
  have hd: "f a = a \<or> (\<not> P a \<and> \<not> P (f a))"
    using Cons.prems [of a] by auto
  from hd tl show ?case by auto
qed

lemma filter_filter_frame:
  "(\<And>x. x \<in> set xs \<Longrightarrow> \<not> Q x \<Longrightarrow> \<not> P x) \<Longrightarrow> filter P (filter Q xs) = filter P xs"
  by (induction xs) auto

lemma distinct_key_eq:
  "distinct (map f xs) \<Longrightarrow> x \<in> set xs \<Longrightarrow> y \<in> set xs \<Longrightarrow> f x = f y \<Longrightarrow> x = y"
  by (auto simp: distinct_map dest: inj_onD)

lemma assign_fields_id [simp]: "c_id (assign_fields body c) = c_id c"
  by (simp add: assign_fields_def)

lemma assign_fields_user_id [simp]: "c_user_id (assign_fields body c) = c_user_id c"
  by (simp add: assign_fields_def)

lemma get_contacts_owned:
  assumes r: "get_contacts skip limit user db = Inr cs" and m: "c \<in> set cs"
  shows "c_user_id c = u_id user \<and> c \<in> set (contacts db)"
proof -
  let ?own = "filter (\<lambda>c. c_user_id c = u_id user) (contacts db)"
  from r have "cs = take (nat limit) (drop (nat skip) ?own)"
    by (simp add: get_contacts_def split: if_splits)
  with m have "c \<in> set (take (nat limit) (drop (nat skip) ?own))"
    by simp
  then have "c \<in> set (drop (nat skip) ?own)"
    by (rule in_set_takeD)
  then have "c \<in> set ?own"
    by (rule in_set_dropD)
  then show ?thesis by simp
qed

lemma get_contact_owned:
  assumes "get_contact contact_id user db = Some c"
  shows "c_id c = contact_id \<and> c_user_id c = u_id user \<and> c \<in> set (contacts db)"
  using assms
    first_filter_Some [of "\<lambda>c. c_id c = contact_id \<and> c_user_id c = u_id user" "contacts db" c]
  by (simp add: get_contact_def)

lemma update_contact_frame:
  assumes "contacts_inv db"
  shows "filter (\<lambda>c. c_user_id c \<noteq> u_id user)
           (contacts (snd (update_contact contact_id body user db)))
         = filter (\<lambda>c. c_user_id c \<noteq> u_id user) (contacts db)"
proof (cases "first (filter (\<lambda>c. c_id c = contact_id \<and> c_user_id c = u_id user) (contacts db))")
  case None
  then show ?thesis by (simp add: update_contact_def)
next
  case (Some contact)
  then have own: "c_user_id contact = u_id user" and mem: "contact \<in> set (contacts db)"
    by (auto dest: first_filter_Some)
  have d: "distinct (map c_id (contacts db))"
    using assms by (simp add: contacts_inv_def)
  have "filter (\<lambda>c. c_user_id c \<noteq> u_id user)
          (map (\<lambda>r. if c_id r = c_id contact then assign_fields body r else r) (contacts db))
        = filter (\<lambda>c. c_user_id c \<noteq> u_id user) (contacts db)"
  proof (rule filter_map_frame)
    fix x
    assume x: "x \<in> set (contacts db)"
      and ch: "(if c_id x = c_id contact then assign_fields body x else x) \<noteq> x"
    then have "c_id x = c_id contact" by (auto split: if_splits)
    with d x mem have "x = contact" by (rule distinct_key_eq)
    with own show "\<not> c_user_id x \<noteq> u_id user
        \<and> \<not> c_user_id (if c_id x = c_id contact then assign_fields body x else x) \<noteq> u_id user"
      by simp
  qed
  with Some show ?thesis by (simp add: update_contact_def)
qed

lemma remove_contact_frame:
  assumes "contacts_inv db"
  shows "filter (\<lambda>c. c_user_id c \<noteq> u_id user)
           (contacts (snd (remove_contact contact_id user db)))
         = filter (\<lambda>c. c_user_id c \<noteq> u_id user) (contacts db)"
proof (cases "first (filter (\<lambda>c. c_id c = contact_id \<and> c_user_id c = u_id user) (contacts db))")
  case None
  then show ?thesis by (simp add: remove_contact_def)
next
  case (Some contact)
  then have own: "c_user_id contact = u_id user" and mem: "contact \<in> set (contacts db)"
    by (auto dest: first_filter_Some)
  have d: "distinct (map c_id (contacts db))"
    using assms by (simp add: contacts_inv_def)
  have "filter (\<lambda>c. c_user_id c \<noteq> u_id user)
          (filter (\<lambda>r. c_id r \<noteq> c_id contact) (contacts db))
        = filter (\<lambda>c. c_user_id c \<noteq> u_id user) (contacts db)"
  proof (rule filter_filter_frame)
    fix x
    assume x: "x \<in> set (contacts db)" and "\<not> c_id x \<noteq> c_id contact"
    then have "c_id x = c_id contact" by simp
    with d x mem have "x = contact" by (rule distinct_key_eq)
    with own show "\<not> c_user_id x \<noteq> u_id user" by simp
  qed
  with Some show ?thesis by (simp add: remove_contact_def)
qed

lemma update_contact_result_owned:
  assumes "fst (update_contact contact_id body user db) = Inr (Some c)"
  shows "c_user_id c = u_id user"
proof (cases "first (filter (\<lambda>c. c_id c = contact_id \<and> c_user_id c = u_id user) (contacts db))")
  case None
  with assms show ?thesis by (simp add: update_contact_def)
next
  case (Some contact)
  then have "c_user_id contact = u_id user"
    using first_filter_Some [of "\<lambda>c. c_id c = contact_id \<and> c_user_id c = u_id user" "contacts db" contact]
    by simp
  with assms Some show ?thesis
    by (auto simp: update_contact_def split: if_splits)
qed

lemma remove_contact_result_owned:
  assumes "fst (remove_contact contact_id user db) = Inr (Some c)"
  shows "c_user_id c = u_id user"
proof (cases "first (filter (\<lambda>c. c_id c = contact_id \<and> c_user_id c = u_id user) (contacts db))")
  case None
  with assms show ?thesis by (simp add: remove_contact_def)
next
  case (Some contact)
  then have "c_user_id contact = u_id user"
    using first_filter_Some [of "\<lambda>c. c_id c = contact_id \<and> c_user_id c = u_id user" "contacts db" contact]
    by simp
  with assms Some show ?thesis
    by (simp add: remove_contact_def)
qed

lemma filter_eq_Nil_Bex: "filter P xs = [] \<longleftrightarrow> \<not> (\<exists>x\<in>set xs. P x)"
  by (simp add: filter_empty_conv)

lemma seq_id_fresh:
  "list_all (\<lambda>r. f r < (n::int)) rows \<Longrightarrow> n \<notin> set (map f rows)"
  by (auto simp: list_all_iff)

lemma first_filter_unique:
  assumes d: "distinct (map c_id rows)" and mem: "c \<in> set rows"
      and own: "c_user_id c = uid"
  shows "first (filter (\<lambda>x. c_id x = c_id c \<and> c_user_id x = uid) rows) = Some c"
proof -
  obtain y where y: "first (filter (\<lambda>x. c_id x = c_id c \<and> c_user_id x = uid) rows) = Some y"
      "c_id y = c_id c" "y \<in> set rows"
    using first_filter_present [of c rows "\<lambda>x. c_id x = c_id c \<and> c_user_id x = uid"] mem own
    by auto
  from d y(3) mem y(2) have "y = c" by (rule distinct_key_eq)
  with y(1) show ?thesis by simp
qed

lemma first_map: "first (map f xs) = map_option f (first xs)"
  by (cases xs) simp_all

lemma filter_map_invariant:
  "(\<And>x. P (f x) = P x) \<Longrightarrow> filter P (map f xs) = map f (filter P xs)"
  by (induction xs) simp_all

lemma test_users_db_inv: "users_inv test_users_db"
  by (simp add: users_inv_def test_users_db_def user_a_def)

lemma two_db_inv: "contacts_inv two_db"
  by (simp add: contacts_inv_def two_db_def test_contact_def second_contact_def)

lemma empty_contacts_db_inv: "contacts_inv empty_contacts_db"
  by (simp add: contacts_inv_def empty_contacts_db_def)

section \<open>Well-formed stores are preserved\<close>

text \<open>The empty stores are well-formed, and every operation that writes keeps a
  well-formed store well-formed, whether it commits or is rejected.\<close>

lemma distinct_map_update:
  assumes "distinct (map k xs)"
      and "\<forall>r\<in>set xs. \<not> P r \<longrightarrow> k r \<noteq> v"
      and "\<forall>r\<in>set xs. \<forall>r'\<in>set xs. P r \<longrightarrow> P r' \<longrightarrow> r = r'"
      and "\<forall>r. P r \<longrightarrow> k (g r) = v"
  shows "distinct (map k (map (\<lambda>r. if P r then g r else r) xs))"
  using assms
proof (induction xs)
  case Nil
  then show ?case by simp
next
  case (Cons a xs)
  let ?f = "\<lambda>r. if P r then g r else r"
  have tl: "distinct (map k (map ?f xs))"
    using Cons by simp
  have a_notin: "a \<notin> set xs"
    using Cons.prems(1) by auto
  have "k (?f a) \<notin> set (map k (map ?f xs))"
  proof (cases "P a")
    case True
    have "\<forall>r\<in>set xs. \<not> P r"
      using Cons.prems(3) True a_notin by auto
    then have "\<forall>r\<in>set xs. k (?f r) \<noteq> v"
      using Cons.prems(2) by auto
    with True Cons.prems(4) show ?thesis by auto
  next
    case False
    then have av: "k a \<noteq> v" using Cons.prems(2) by simp
    have "\<forall>r\<in>set xs. k (?f r) \<noteq> k a"
    proof
      fix r assume r: "r \<in> set xs"
      show "k (?f r) \<noteq> k a"
      proof (cases "P r")
        case True
        with Cons.prems(4) av show ?thesis by simp
      next
        case False
        have "k a \<notin> k ` set xs" using Cons.prems(1) by simp
        with r have "k r \<noteq> k a" by (metis image_eqI)
        with False show ?thesis by simp
      qed
    qed
    with False show ?thesis by auto
  qed
  with tl show ?case by simp
qed

lemma create_contact_inv:
  assumes "contacts_inv db"
  shows "contacts_inv (snd (create_contact body user db))"
  using assms
  by (auto simp: create_contact_def Let_def contacts_inv_def list_all_iff)

lemma remove_contact_inv:
  assumes "contacts_inv db"
  shows "contacts_inv (snd (remove_contact contact_id user db))"
  using assms
  by (auto simp: remove_contact_def contacts_inv_def list_all_iff distinct_map_filter
      split: option.splits)

lemma update_contact_inv:
  assumes inv: "contacts_inv db"
  shows "contacts_inv (snd (update_contact contact_id body user db))"
proof (cases "first (filter (\<lambda>c. c_id c = contact_id \<and> c_user_id c = u_id user) (contacts db))")
  case None
  with inv show ?thesis by (simp add: update_contact_def)
next
  case (Some contact)
  let ?lx = "list_ex (\<lambda>r. c_id r \<noteq> c_id contact \<and>
                (c_email r = b_email body \<or> c_phone r = b_phone body)) (contacts db)"
  let ?f = "\<lambda>r. if c_id r = c_id contact then assign_fields body r else r"
  show ?thesis
  proof (cases ?lx)
    case True
    with Some inv show ?thesis by (simp add: update_contact_def)
  next
    case False
    have d: "distinct (map c_id (contacts db))"
      using inv by (simp add: contacts_inv_def)
    have uniq: "\<forall>r\<in>set (contacts db). \<forall>r'\<in>set (contacts db).
        c_id r = c_id contact \<longrightarrow> c_id r' = c_id contact \<longrightarrow> r = r'"
      using d by (auto intro: distinct_key_eq)
    have ids: "map c_id (map ?f xs) = map c_id xs" for xs
      by (induction xs) simp_all
    have dz: "distinct (map c_id (map ?f (contacts db)))"
      by (simp only: ids d)
    have em: "distinct (map c_email (map ?f (contacts db)))"
    proof (rule distinct_map_update [where v = "b_email body"])
      show "distinct (map c_email (contacts db))"
        using inv by (simp add: contacts_inv_def)
      show "\<forall>r\<in>set (contacts db). \<not> c_id r = c_id contact \<longrightarrow> c_email r \<noteq> b_email body"
        using False by (auto simp: list_ex_iff)
      show "\<forall>r\<in>set (contacts db). \<forall>r'\<in>set (contacts db).
        c_id r = c_id contact \<longrightarrow> c_id r' = c_id contact \<longrightarrow> r = r'"
        by (rule uniq)
      show "\<forall>r. c_id r = c_id contact \<longrightarrow> c_email (assign_fields body r) = b_email body"
        by (simp add: assign_fields_def)
    qed
    have ph: "distinct (map c_phone (map ?f (contacts db)))"
    proof (rule distinct_map_update [where v = "b_phone body"])
      show "distinct (map c_phone (contacts db))"
        using inv by (simp add: contacts_inv_def)
      show "\<forall>r\<in>set (contacts db). \<not> c_id r = c_id contact \<longrightarrow> c_phone r \<noteq> b_phone body"
        using False by (auto simp: list_ex_iff)
      show "\<forall>r\<in>set (contacts db). \<forall>r'\<in>set (contacts db).
        c_id r = c_id contact \<longrightarrow> c_id r' = c_id contact \<longrightarrow> r = r'"
        by (rule uniq)
      show "\<forall>r. c_id r = c_id contact \<longrightarrow> c_phone (assign_fields body r) = b_phone body"
        by (simp add: assign_fields_def)
    qed
    have sq: "list_all (\<lambda>c. c_id c < contacts_seq db) (map ?f (contacts db))"
      using inv by (auto simp: contacts_inv_def list_all_iff)
    have "snd (update_contact contact_id body user db) = db\<lparr>contacts := map ?f (contacts db)\<rparr>"
      using Some False by (simp add: update_contact_def)
    with dz em ph sq show ?thesis
      by (simp add: contacts_inv_def)
  qed
qed

lemma empty_users_db_inv: "users_inv empty_users_db"
  by (simp add: users_inv_def empty_users_db_def)

lemma create_user_inv:
  assumes "users_inv db"
  shows "users_inv (snd (create_user body gravatar now db))"
  using assms
  by (auto simp: create_user_def Let_def users_inv_def list_all_iff)

lemma users_inv_update:
  assumes inv: "users_inv db"
      and keep: "\<And>r. u_id (g r) = u_id r \<and> u_email (g r) = u_email r"
  shows "users_inv (db\<lparr>users := map (\<lambda>r. if u_id r = i then g r else r) (users db)\<rparr>)"
proof -
  let ?f = "\<lambda>r. if u_id r = i then g r else r"
  have ids: "map u_id (map ?f xs) = map u_id xs" for xs
    by (induction xs) (simp_all add: keep)
  have ems: "map u_email (map ?f xs) = map u_email xs" for xs
    by (induction xs) (simp_all add: keep)
  have d1: "distinct (map u_id (map ?f (users db)))"
    using inv by (simp only: ids users_inv_def)
  have d2: "distinct (map u_email (map ?f (users db)))"
    using inv by (simp only: ems users_inv_def)
  have sq: "list_all (\<lambda>u. u_id u < users_seq db) (map ?f (users db))"
    using inv by (auto simp: users_inv_def list_all_iff keep)
  from d1 d2 sq show ?thesis
    by (simp add: users_inv_def)
qed

lemma confirmed_email_inv:
  assumes "users_inv db"
  shows "users_inv (snd (confirmed_email email db))"
proof (cases "get_user_by_email email db")
  case None
  with assms show ?thesis by (simp add: confirmed_email_def)
next
  case (Some user)
  have "users_inv (db\<lparr>users := map (\<lambda>r. if u_id r = u_id user then r\<lparr>u_confirmed := True\<rparr> else r)
      (users db)\<rparr>)"
    using assms by (rule users_inv_update) simp
  with Some show ?thesis by (simp add: confirmed_email_def)
qed

lemma update_avatar_inv:
  assumes "users_inv db"
  shows "users_inv (snd (update_avatar email url db))"
proof (cases "get_user_by_email email db")
  case None
  with assms show ?thesis by (simp add: update_avatar_def)
next
  case (Some user)
  have "users_inv (db\<lparr>users := map (\<lambda>r. if u_id r = u_id user then r\<lparr>u_avatar := Some url\<rparr> else r)
      (users db)\<rparr>)"
    using assms by (rule users_inv_update) simp
  with Some show ?thesis by (simp add: update_avatar_def)
qed


section \<open>Patterns without wildcards, and the keys of the birthday window\<close>

text \<open>The pattern of a search, \<open>%string%\<close>, is well escaped whatever the string is.\<close>

lemma well_escaped_snoc: "c \<noteq> CHR 0x5C \<Longrightarrow> well_escaped (p @ [c])"
  by (induction p rule: well_escaped.induct) simp_all

lemma search_pattern_well_escaped: "well_escaped (''%'' @ s @ ''%'')"
proof -
  have "well_escaped ((''%'' @ s) @ [CHR ''%''])"
    by (rule well_escaped_snoc) simp
  then show ?thesis by simp
qed

text \<open>For a search string without \<open>%\<close>, \<open>_\<close> and backslash, the pattern \<open>%string%\<close>
  matches exactly the texts that contain the string.\<close>

lemma like_percent_all: "like ''%'' t"
  by (induction t) simp_all

lemma like_percent_suffix: "like (CHR ''%'' # p) t \<longleftrightarrow> (\<exists>u. suffix u t \<and> like p u)"
proof (induction t)
  case Nil
  show ?case by (cases p) auto
next
  case (Cons c cs)
  have "like (CHR ''%'' # p) (c # cs) \<longleftrightarrow> like p (c # cs) \<or> like (CHR ''%'' # p) cs"
    by simp
  also have "\<dots> \<longleftrightarrow> like p (c # cs) \<or> (\<exists>u. suffix u cs \<and> like p u)"
    by (simp only: Cons.IH)
  also have "\<dots> \<longleftrightarrow> (\<exists>u. suffix u (c # cs) \<and> like p u)"
    by (auto simp: suffix_Cons)
  finally show ?case .
qed

lemma like_literal_prefix:
  assumes "CHR ''%'' \<notin> set s" and "CHR ''_'' \<notin> set s" and "CHR 0x5C \<notin> set s"
  shows "like (s @ ''%'') u \<longleftrightarrow> prefix s u"
  using assms
proof (induction s arbitrary: u)
  case Nil
  then show ?case by (simp add: like_percent_all)
next
  case (Cons x xs)
  then have x: "x \<noteq> CHR ''%''" "x \<noteq> CHR ''_''" "x \<noteq> CHR 0x5C" by auto
  from Cons have ih: "\<And>v. like (xs @ ''%'') v \<longleftrightarrow> prefix xs v" by simp
  show ?case
  proof (cases u)
    case Nil
    with x show ?thesis by simp
  next
    case (Cons c cs)
    with x ih show ?thesis by auto
  qed
qed

lemma like_literal_sublist:
  assumes "CHR ''%'' \<notin> set s" and "CHR ''_'' \<notin> set s" and "CHR 0x5C \<notin> set s"
  shows "like (''%'' @ s @ ''%'') t \<longleftrightarrow> sublist s t"
proof -
  have "like (''%'' @ s @ ''%'') t \<longleftrightarrow> (\<exists>u. suffix u t \<and> like (s @ ''%'') u)"
    using like_percent_suffix [of "s @ ''%''" t] by simp
  also have "\<dots> \<longleftrightarrow> (\<exists>u. suffix u t \<and> prefix s u)"
    by (simp only: like_literal_prefix [OF assms])
  also have "\<dots> \<longleftrightarrow> sublist s t"
    by (simp add: sublist_altdef')
  finally show ?thesis .
qed

lemma get_contacts_name_literal:
  assumes "CHR ''%'' \<notin> set s" and "CHR ''_'' \<notin> set s" and "CHR 0x5C \<notin> set s"
  shows "get_contacts_name s user db
         = filter (\<lambda>c. sublist s (c_name c) \<and> c_user_id c = u_id user) (contacts db)"
  by (simp only: get_contacts_name_def like_literal_sublist [OF assms])

text \<open>A backslash in the search string escapes what follows it: the search for one
  backslash has the pattern \<open>%\<close>, backslash, \<open>%\<close>, which matches the texts that end in \<open>%\<close>,
  and so not the name \<open>a\<close>, backslash, \<open>b\<close>; the search for two backslashes matches it.\<close>

lemma backslash_search:
  "get_contacts_name [CHR 0x5C] user_a slash_db = []
   \<and> get_contacts_name [CHR 0x5C, CHR 0x5C] user_a slash_db = [slash_contact]"
  by (simp add: get_contacts_name_def slash_db_def slash_contact_def user_a_def)

text \<open>The loop collects the keys of the seven days in order, and every contact of the
  user whose day and month are those of one of the seven days is returned.\<close>

lemma days_loop_keys:
  "days_loop today ns acc = Inr days
   \<Longrightarrow> days = acc @ map (\<lambda>i. str_nat (day (add_days today i)) @ str_nat (month (add_days today i))) ns"
proof (induction ns arbitrary: acc)
  case Nil
  then show ?case by simp
next
  case (Cons i rest)
  from Cons.prems obtain d where d: "date_plus_timedelta today i = Inr d"
    by (auto split: sum.splits)
  then have dd: "d = add_days today i"
    by (auto simp: date_plus_timedelta_def Let_def split: if_splits)
  from Cons.prems d
  have "days_loop today rest (acc @ [str_nat (day d) @ str_nat (month d)]) = Inr days"
    by simp
  from Cons.IH [OF this] dd show ?case by simp
qed

lemma get_contacts_birthday_complete:
  assumes res: "get_contacts_birthday today user db = Inr cs"
      and mem: "c \<in> set (contacts db)"
      and own: "c_user_id c = u_id user"
      and i: "i < 7"
      and dm: "day (c_birthday c) = day (add_days today i)"
              "month (c_birthday c) = month (add_days today i)"
  shows "c \<in> set cs"
proof -
  from res obtain days where days: "days_loop today [0..<7] [] = Inr days"
    and cs: "cs = filter (\<lambda>c. str_nat (day (c_birthday c)) @ str_nat (month (c_birthday c)) \<in> set days
                         \<and> c_user_id c = u_id user) (contacts db)"
    by (auto simp: get_contacts_birthday_def split: sum.splits)
  from days_loop_keys [OF days]
  have "days = map (\<lambda>i. str_nat (day (add_days today i)) @ str_nat (month (add_days today i))) [0..<7]"
    by simp
  moreover have "i \<in> set [0..<7]" using i by simp
  ultimately have "str_nat (day (add_days today i)) @ str_nat (month (add_days today i)) \<in> set days"
    by (simp only: set_map image_eqI)
  with dm have "str_nat (day (c_birthday c)) @ str_nat (month (c_birthday c)) \<in> set days"
    by simp
  with cs mem own show ?thesis by simp
qed

section \<open>Absent and foreign ids\<close>

text \<open>
  C3. When no stored contact has the given id and the calling user as owner (the id does
  not exist, or its contact belongs to another user), \<open>get_contact\<close> returns \<open>None\<close>, and
  \<open>update_contact\<close> and \<open>remove_contact\<close> return \<open>None\<close> without raising and leave the
  store as it was.
\<close>

theorem absent_contact_is_None:
  assumes "\<not> (\<exists>c\<in>set (contacts db). c_id c = contact_id \<and> c_user_id c = u_id user)"
  shows "get_contact contact_id user db = None
       \<and> update_contact contact_id body user db = (Inr None, db)
       \<and> remove_contact contact_id user db = (Inr None, db)"
proof -
  have "filter (\<lambda>c. c_id c = contact_id \<and> c_user_id c = u_id user) (contacts db) = []"
    using assms by (rule filter_empty_absent)
  then show ?thesis
    by (simp add: get_contact_def update_contact_def remove_contact_def first_def)
qed

text \<open>The second user asks for the first user's contact 1; the first user asks for the
  id 7, which no contact has.\<close>

theorem absent_contact_is_None_witness:
  "get_contact 1 user_b test_db = None
   \<and> update_contact 1 test_body user_b test_db = (Inr None, test_db)
   \<and> remove_contact 1 user_b test_db = (Inr None, test_db)
   \<and> get_contact 7 user_a test_db = None
   \<and> update_contact 7 test_body user_a test_db = (Inr None, test_db)
   \<and> remove_contact 7 user_a test_db = (Inr None, test_db)"
  using absent_contact_is_None [of test_db 1 user_b test_body]
        absent_contact_is_None [of test_db 7 user_a test_body]
  by (simp add: test_db_def test_contact_def user_a_def user_b_def)

section \<open>Users that do not exist\<close>

text \<open>
  C10. \<open>confirmed_email\<close> and \<open>update_avatar\<close> need a stored user with the given email.
  For an email that no user has, \<open>get_user_by_email\<close> returns \<open>None\<close> and both operations
  raise \<open>AttributeError\<close> (the store is left as it was) instead of returning \<open>None\<close>;
  for an email that a user has, the lookup returns that user and both operations return
  normally, so the error branch is not reached.
\<close>

theorem missing_user_raises:
  "(email \<notin> set (map u_email (users db)) \<longrightarrow>
      get_user_by_email email db = None
      \<and> confirmed_email email db = (Inl AttributeError, db)
      \<and> update_avatar email url db = (Inl AttributeError, db))
   \<and> (email \<in> set (map u_email (users db)) \<longrightarrow>
      (\<exists>u. get_user_by_email email db = Some u \<and> u_email u = email
         \<and> fst (confirmed_email email db) = Inr ()
         \<and> fst (update_avatar email url db) = Inr (u\<lparr>u_avatar := Some url\<rparr>)))"
proof (intro conjI impI)
  assume a: "email \<notin> set (map u_email (users db))"
  then have "filter (\<lambda>u. u_email u = email) (users db) = []"
    by (auto simp: filter_empty_conv)
  then have n: "get_user_by_email email db = None"
    by (simp add: get_user_by_email_def)
  show "get_user_by_email email db = None" by (rule n)
  show "confirmed_email email db = (Inl AttributeError, db)"
    by (simp add: confirmed_email_def n)
  show "update_avatar email url db = (Inl AttributeError, db)"
    by (simp add: update_avatar_def n)
next
  assume "email \<in> set (map u_email (users db))"
  then obtain x where "x \<in> set (users db)" "u_email x = email" by auto
  then obtain u where u: "get_user_by_email email db = Some u" "u_email u = email"
    unfolding get_user_by_email_def
    using first_filter_present [of x "users db" "\<lambda>u. u_email u = email"] by auto
  then show "\<exists>u. get_user_by_email email db = Some u \<and> u_email u = email
         \<and> fst (confirmed_email email db) = Inr ()
         \<and> fst (update_avatar email url db) = Inr (u\<lparr>u_avatar := Some url\<rparr>)"
    by (simp add: confirmed_email_def update_avatar_def)
qed

text \<open>The store holds the first user only: the second user's email raises, the first
  user's email does not.\<close>

theorem missing_user_raises_witness:
  "confirmed_email ''bob@example.com'' test_users_db = (Inl AttributeError, test_users_db)
   \<and> update_avatar ''bob@example.com'' ''http://a/b.png'' test_users_db
       = (Inl AttributeError, test_users_db)
   \<and> fst (confirmed_email ''alice@example.com'' test_users_db) = Inr ()
   \<and> fst (update_avatar ''alice@example.com'' ''http://a/b.png'' test_users_db)
       = Inr (user_a\<lparr>u_avatar := Some ''http://a/b.png''\<rparr>)"
  using missing_user_raises [of "''bob@example.com''" test_users_db "''http://a/b.png''"]
        missing_user_raises [of "''alice@example.com''" test_users_db "''http://a/b.png''"]
  by (simp add: test_users_db_def user_a_def get_user_by_email_def first_def)

section \<open>Uniqueness of email and phone\<close>

text \<open>
  C4. Creating a contact whose email or phone equals that of a stored contact, whoever
  owns the stored one, fails with \<open>IntegrityError\<close> (the uniqueness violation); the store
  is left as it was, so the stored contact is still there, unchanged.
\<close>

theorem duplicate_contact_rejected:
  assumes "c \<in> set (contacts db)"
      and "b_email body = c_email c \<or> b_phone body = c_phone c"
  shows "create_contact body user db = (Inl IntegrityError, db)
       \<and> c \<in> set (contacts (snd (create_contact body user db)))"
proof -
  have "b_email body \<in> set (map c_email (contacts db))
        \<or> b_phone body \<in> set (map c_phone (contacts db))"
    using assms by force
  then have "create_contact body user db = (Inl IntegrityError, db)"
    by (auto simp: create_contact_def Let_def)
  with assms(1) show ?thesis by simp
qed

text \<open>The first user creates the scenario's contact in the empty store; the second user
  then tries the same email with another phone, and the same phone with another email.\<close>

theorem duplicate_contact_rejected_witness:
  "create_contact test_body user_a empty_contacts_db = (Inr test_contact, test_db)
   \<and> create_contact (test_body\<lparr>b_phone := ''+15550100''\<rparr>) user_b test_db
       = (Inl IntegrityError, test_db)
   \<and> create_contact (test_body\<lparr>b_email := ''other@example.com''\<rparr>) user_b test_db
       = (Inl IntegrityError, test_db)
   \<and> test_contact \<in> set (contacts test_db)"
  using duplicate_contact_rejected [of test_contact test_db "test_body\<lparr>b_phone := ''+15550100''\<rparr>" user_b]
        duplicate_contact_rejected [of test_contact test_db "test_body\<lparr>b_email := ''other@example.com''\<rparr>" user_b]
  by (simp add: test_db_def test_contact_def test_body_def create_contact_def
        empty_contacts_db_def user_a_def Let_def)

section \<open>Ownership\<close>

text \<open>
  C2. In a well-formed store, let \<open>c1\<close> be a stored contact that the calling user \<open>user_B\<close>
  does not own. Called by \<open>user_B\<close>, \<open>get_contacts\<close>, \<open>get_contact\<close> and the three searches
  never return \<open>c1\<close>; \<open>update_contact\<close> and \<open>remove_contact\<close> never return \<open>c1\<close> and leave
  \<open>c1\<close> stored as it was. (The reads return no store: they cannot change one.)
\<close>

theorem owner_isolation:
  assumes inv: "contacts_inv db"
      and c1: "c1 \<in> set (contacts db)"
      and other: "c_user_id c1 \<noteq> u_id user_B"
  shows "(\<forall>cs. get_contacts skip limit user_B db = Inr cs \<longrightarrow> c1 \<notin> set cs)
       \<and> get_contact contact_id user_B db \<noteq> Some c1
       \<and> c1 \<notin> set (get_contacts_name s user_B db)
       \<and> c1 \<notin> set (get_contacts_surname s user_B db)
       \<and> c1 \<notin> set (get_contacts_email s user_B db)
       \<and> fst (update_contact contact_id body user_B db) \<noteq> Inr (Some c1)
       \<and> c1 \<in> set (contacts (snd (update_contact contact_id body user_B db)))
       \<and> fst (remove_contact contact_id user_B db) \<noteq> Inr (Some c1)
       \<and> c1 \<in> set (contacts (snd (remove_contact contact_id user_B db)))"
proof -
  let ?others = "filter (\<lambda>c. c_user_id c \<noteq> u_id user_B)"
  have in_others: "c1 \<in> set (?others (contacts db))"
    using c1 other by simp
  have list: "\<forall>cs. get_contacts skip limit user_B db = Inr cs \<longrightarrow> c1 \<notin> set cs"
    using other by (auto dest: get_contacts_owned)
  have get: "get_contact contact_id user_B db \<noteq> Some c1"
    using other by (auto dest: get_contact_owned)
  have name: "c1 \<notin> set (get_contacts_name s user_B db)"
    using other by (simp add: get_contacts_name_def)
  have surname: "c1 \<notin> set (get_contacts_surname s user_B db)"
    using other by (simp add: get_contacts_surname_def)
  have email: "c1 \<notin> set (get_contacts_email s user_B db)"
    using other by (simp add: get_contacts_email_def)
  have upd_res: "fst (update_contact contact_id body user_B db) \<noteq> Inr (Some c1)"
    using other by (auto dest: update_contact_result_owned)
  have "c1 \<in> set (?others (contacts (snd (update_contact contact_id body user_B db))))"
    using in_others update_contact_frame [OF inv, of user_B contact_id body] by simp
  then have upd_db: "c1 \<in> set (contacts (snd (update_contact contact_id body user_B db)))"
    by simp
  have rem_res: "fst (remove_contact contact_id user_B db) \<noteq> Inr (Some c1)"
    using other by (auto dest: remove_contact_result_owned)
  have "c1 \<in> set (?others (contacts (snd (remove_contact contact_id user_B db))))"
    using in_others remove_contact_frame [OF inv, of user_B contact_id] by simp
  then have rem_db: "c1 \<in> set (contacts (snd (remove_contact contact_id user_B db)))"
    by simp
  from list get name surname email upd_res upd_db rem_res rem_db show ?thesis
    by blast
qed

lemma test_db_inv: "contacts_inv test_db"
  by (simp add: contacts_inv_def test_db_def test_contact_def)

theorem owner_isolation_witness:
  "get_contacts 0 100 user_b test_db = Inr []
   \<and> get_contact 1 user_b test_db \<noteq> Some test_contact
   \<and> test_contact \<notin> set (get_contacts_name ''Test'' user_b test_db)
   \<and> test_contact \<notin> set (get_contacts_surname ''Test'' user_b test_db)
   \<and> test_contact \<notin> set (get_contacts_email ''Test'' user_b test_db)
   \<and> fst (update_contact 1 test_body user_b test_db) \<noteq> Inr (Some test_contact)
   \<and> test_contact \<in> set (contacts (snd (update_contact 1 test_body user_b test_db)))
   \<and> fst (remove_contact 1 user_b test_db) \<noteq> Inr (Some test_contact)
   \<and> test_contact \<in> set (contacts (snd (remove_contact 1 user_b test_db)))"
proof -
  have a: "contacts_inv test_db" by (rule test_db_inv)
  have b: "test_contact \<in> set (contacts test_db)" by (simp add: test_db_def)
  have c: "c_user_id test_contact \<noteq> u_id user_b" by (simp add: test_contact_def user_b_def)
  have d: "get_contacts 0 100 user_b test_db = Inr []"
    by (simp add: get_contacts_def test_db_def test_contact_def user_b_def)
  from d owner_isolation [OF a b c, of 0 100 1 "''Test''" test_body] show ?thesis
    by blast
qed

section \<open>Upcoming birthdays\<close>

text \<open>
  C1. The claim is that \<open>get_contacts_birthday\<close> returns exactly the user's contacts whose
  (day, month) is the (day, month) of one of the seven days from today. The code compares
  the undelimited strings \<open>str(day) + str(month)\<close>: on 11 January the key of today is
  \<open>111\<close>, which is also the key of 1 November. So on 2023-01-11 a contact born on
  1 November is returned, although (1, 11) is the (day, month) of none of the seven days
  11 to 17 January.
\<close>

theorem birthday_key_collision:
  "get_contacts_birthday \<lparr>year = 2023, month = 1, day = 11\<rparr> user_a abc_db = Inr [abc_contact]
   \<and> (day (c_birthday abc_contact), month (c_birthday abc_contact))
       \<notin> set (map (\<lambda>i. (day (add_days \<lparr>year = 2023, month = 1, day = 11\<rparr> i),
                          month (add_days \<lparr>year = 2023, month = 1, day = 11\<rparr> i))) [0..<7])"
  by code_simp

section \<open>Search\<close>

text \<open>
  C6. The claim is that a search returns exactly the user's contacts whose field contains
  the search string as a literal substring, also for strings with \<open>%\<close> or \<open>_\<close>. The code puts
  the string unescaped into the \<open>LIKE\<close> pattern, where \<open>_\<close> and \<open>%\<close> are wildcards: the
  searches for \<open>a_c\<close> and for \<open>a%c\<close> return the contact named \<open>abc\<close>, which contains
  neither string.
\<close>

theorem search_wildcard_not_literal:
  "get_contacts_name ''a_c'' user_a abc_db = [abc_contact]
   \<and> get_contacts_name ''a%c'' user_a abc_db = [abc_contact]
   \<and> \<not> sublist ''a_c'' (c_name abc_contact)
   \<and> \<not> sublist ''a%c'' (c_name abc_contact)"
  by code_simp

text \<open>
  C5, as stated: a search that matches nothing returns an empty sequence and is no error
  at the public interface. At the route, it is an error: the search for \<open>zzz\<close> finds
  nothing in the repository, and the handler raises \<open>HTTPException(404)\<close>.
\<close>

theorem empty_search_raises_404:
  "read_contacts_name ''zzz'' test_db user_a = Inl (HTTPException 404 ''Contact not found'')
   \<and> get_contacts_name ''zzz'' user_a test_db = []"
  by (simp add: read_contacts_name_def get_contacts_name_def test_db_def test_contact_def user_a_def)

text \<open>
  C5, amended. For every user and search string, each repository search
  (\<open>get_contacts_name\<close>, \<open>get_contacts_surname\<close>, \<open>get_contacts_email\<close>) returns the empty
  list, raising nothing, exactly when no contact of the user matches the pattern
  \<open>%string%\<close> under the store's \<open>LIKE\<close> (wildcards and backslash escape included); the
  route handler over it raises \<open>HTTPException(404, "Contact not found")\<close> when that list
  is empty, and returns the list when it is not.
\<close>

theorem empty_search_repository_and_route:
  "(get_contacts_name s user db = [] \<longleftrightarrow>
      \<not> (\<exists>c\<in>set (contacts db). like (''%'' @ s @ ''%'') (c_name c) \<and> c_user_id c = u_id user))
   \<and> (get_contacts_surname s user db = [] \<longleftrightarrow>
      \<not> (\<exists>c\<in>set (contacts db). like (''%'' @ s @ ''%'') (c_surname c) \<and> c_user_id c = u_id user))
   \<and> (get_contacts_email s user db = [] \<longleftrightarrow>
      \<not> (\<exists>c\<in>set (contacts db). like (''%'' @ s @ ''%'') (c_email c) \<and> c_user_id c = u_id user))
   \<and> (get_contacts_name s user db = [] \<longrightarrow>
        read_contacts_name s db user = Inl (HTTPException 404 ''Contact not found''))
   \<and> (get_contacts_surname s user db = [] \<longrightarrow>
        read_contacts_surname s db user = Inl (HTTPException 404 ''Contact not found''))
   \<and> (get_contacts_email s user db = [] \<longrightarrow>
        read_contacts_email s db user = Inl (HTTPException 404 ''Contact not found''))
   \<and> (get_contacts_name s user db \<noteq> [] \<longrightarrow>
        read_contacts_name s db user = Inr (get_contacts_name s user db))
   \<and> (get_contacts_surname s user db \<noteq> [] \<longrightarrow>
        read_contacts_surname s db user = Inr (get_contacts_surname s user db))
   \<and> (get_contacts_email s user db \<noteq> [] \<longrightarrow>
        read_contacts_email s db user = Inr (get_contacts_email s user db))"
proof -
  have n: "get_contacts_name s user db = [] \<longleftrightarrow>
      \<not> (\<exists>c\<in>set (contacts db). like (''%'' @ s @ ''%'') (c_name c) \<and> c_user_id c = u_id user)"
    unfolding get_contacts_name_def by (rule filter_eq_Nil_Bex)
  have sn: "get_contacts_surname s user db = [] \<longleftrightarrow>
      \<not> (\<exists>c\<in>set (contacts db). like (''%'' @ s @ ''%'') (c_surname c) \<and> c_user_id c = u_id user)"
    unfolding get_contacts_surname_def by (rule filter_eq_Nil_Bex)
  have e: "get_contacts_email s user db = [] \<longleftrightarrow>
      \<not> (\<exists>c\<in>set (contacts db). like (''%'' @ s @ ''%'') (c_email c) \<and> c_user_id c = u_id user)"
    unfolding get_contacts_email_def by (rule filter_eq_Nil_Bex)
  have r1: "get_contacts_name s user db = [] \<longrightarrow>
        read_contacts_name s db user = Inl (HTTPException 404 ''Contact not found'')"
    by (simp add: read_contacts_name_def)
  have r2: "get_contacts_surname s user db = [] \<longrightarrow>
        read_contacts_surname s db user = Inl (HTTPException 404 ''Contact not found'')"
    by (simp add: read_contacts_surname_def)
  have r3: "get_contacts_email s user db = [] \<longrightarrow>
        read_contacts_email s db user = Inl (HTTPException 404 ''Contact not found'')"
    by (simp add: read_contacts_email_def)
  have p1: "get_contacts_name s user db \<noteq> [] \<longrightarrow>
        read_contacts_name s db user = Inr (get_contacts_name s user db)"
    by (simp add: read_contacts_name_def Let_def)
  have p2: "get_contacts_surname s user db \<noteq> [] \<longrightarrow>
        read_contacts_surname s db user = Inr (get_contacts_surname s user db)"
    by (simp add: read_contacts_surname_def Let_def)
  have p3: "get_contacts_email s user db \<noteq> [] \<longrightarrow>
        read_contacts_email s db user = Inr (get_contacts_email s user db)"
    by (simp add: read_contacts_email_def Let_def)
  from n sn e r1 r2 r3 p1 p2 p3 show ?thesis by blast
qed

theorem empty_search_repository_and_route_witness:
  "get_contacts_name ''qq'' user_a test_db = []
   \<and> read_contacts_name ''qq'' test_db user_a = Inl (HTTPException 404 ''Contact not found'')
   \<and> get_contacts_surname ''qq'' user_a test_db = []
   \<and> read_contacts_surname ''qq'' test_db user_a = Inl (HTTPException 404 ''Contact not found'')
   \<and> get_contacts_email ''qq'' user_a test_db = []
   \<and> read_contacts_email ''qq'' test_db user_a = Inl (HTTPException 404 ''Contact not found'')
   \<and> read_contacts_name ''es'' test_db user_a = Inr [test_contact]
   \<and> read_contacts_surname ''on'' test_db user_a = Inr [test_contact]
   \<and> read_contacts_email ''@'' test_db user_a = Inr [test_contact]
   \<and> get_contacts_name [CHR 0x5C] user_a slash_db = []
   \<and> read_contacts_name [CHR 0x5C] slash_db user_a = Inl (HTTPException 404 ''Contact not found'')"
proof -
  have b: "get_contacts_name [CHR 0x5C] user_a slash_db = []"
    by (simp add: get_contacts_name_def slash_db_def slash_contact_def user_a_def)
  have q: "get_contacts_name ''qq'' user_a test_db = []"
     "get_contacts_surname ''qq'' user_a test_db = []"
     "get_contacts_email ''qq'' user_a test_db = []"
    by (simp_all add: get_contacts_name_def get_contacts_surname_def get_contacts_email_def
          test_db_def test_contact_def user_a_def)
  have h: "get_contacts_name ''es'' user_a test_db = [test_contact]"
     "get_contacts_surname ''on'' user_a test_db = [test_contact]"
     "get_contacts_email ''@'' user_a test_db = [test_contact]"
    by (simp_all add: get_contacts_name_def get_contacts_surname_def get_contacts_email_def
          test_db_def test_contact_def user_a_def)
  from q h b empty_search_repository_and_route [of "''qq''" user_a test_db]
    empty_search_repository_and_route [of "[CHR 0x5C]" user_a slash_db]
    empty_search_repository_and_route [of "''es''" user_a test_db]
    empty_search_repository_and_route [of "''on''" user_a test_db]
    empty_search_repository_and_route [of "''@''" user_a test_db]
  show ?thesis by simp
qed

section \<open>Creating a user\<close>

text \<open>
  C7, as stated: \<open>create_user\<close> always inserts the new user and returns it. It does not
  when a stored user has the body's email: the commit is rejected, whatever the avatar
  lookup returned, and nothing is inserted.
\<close>

theorem create_user_duplicate_email_rejected:
  "create_user (bob_signup\<lparr>m_email := ''alice@example.com''\<rparr>) (\<lambda>email. Inr ''http://g/avatar'')
       9 test_users_db
   = (Inl IntegrityError, test_users_db)"
  by (simp add: create_user_def bob_signup_def test_users_db_def user_a_def Let_def)

text \<open>
  C7, amended. In a well-formed store, when no stored user has the body's email,
  \<open>create_user\<close> inserts the new user and returns it whatever the avatar lookup does: if the
  lookup raises, the exception is swallowed and the avatar is \<open>None\<close>; if it returns a
  URL, that URL is the avatar. When a stored user has the body's email, the commit fails
  with \<open>IntegrityError\<close> and the store is left as it was.
\<close>

theorem create_user_tolerates_avatar_failure:
  assumes inv: "users_inv db"
  shows "(m_email body \<notin> set (map u_email (users db)) \<longrightarrow>
           (\<exists>u. create_user body gravatar now db
                  = (Inr u, db\<lparr>users := users db @ [u], users_seq := users_seq db + 1\<rparr>)
              \<and> u_username u = m_username body \<and> u_email u = m_email body
              \<and> u_password u = m_password body
              \<and> (\<forall>e. gravatar (m_email body) = Inl e \<longrightarrow> u_avatar u = None)
              \<and> (\<forall>url. gravatar (m_email body) = Inr url \<longrightarrow> u_avatar u = Some url)
              \<and> get_user_by_email (m_email body) (snd (create_user body gravatar now db)) = Some u))
       \<and> (m_email body \<in> set (map u_email (users db)) \<longrightarrow>
           create_user body gravatar now db = (Inl IntegrityError, db))"
proof (intro conjI impI)
  assume dup: "m_email body \<in> set (map u_email (users db))"
  then show "create_user body gravatar now db = (Inl IntegrityError, db)"
    by (simp add: create_user_def Let_def)
next
  assume fresh: "m_email body \<notin> set (map u_email (users db))"
  define u where "u = \<lparr>u_id = users_seq db, u_username = m_username body,
      u_email = m_email body, u_password = m_password body,
      u_avatar = (case gravatar (m_email body) of Inl e \<Rightarrow> None | Inr url \<Rightarrow> Some url),
      u_confirmed = False, u_refresh_token = None, u_created_at = now\<rparr>"
  have idf: "users_seq db \<notin> set (map u_id (users db))"
    using inv seq_id_fresh [of u_id "users_seq db" "users db"] by (simp add: users_inv_def)
  have res: "create_user body gravatar now db
      = (Inr u, db\<lparr>users := users db @ [u], users_seq := users_seq db + 1\<rparr>)"
    using fresh idf by (simp add: create_user_def Let_def u_def)
  have none: "filter (\<lambda>x. u_email x = m_email body) (users db) = []"
    using fresh by (auto simp: filter_empty_conv image_iff)
  have look: "get_user_by_email (m_email body) (snd (create_user body gravatar now db)) = Some u"
    by (simp add: res get_user_by_email_def none) (simp add: u_def)
  have av1: "\<forall>e. gravatar (m_email body) = Inl e \<longrightarrow> u_avatar u = None"
    by (simp add: u_def)
  have av2: "\<forall>url. gravatar (m_email body) = Inr url \<longrightarrow> u_avatar u = Some url"
    by (simp add: u_def)
  have f: "u_username u = m_username body \<and> u_email u = m_email body
        \<and> u_password u = m_password body"
    by (simp add: u_def)
  from res f av1 av2 look
  show "\<exists>u. create_user body gravatar now db
                  = (Inr u, db\<lparr>users := users db @ [u], users_seq := users_seq db + 1\<rparr>)
              \<and> u_username u = m_username body \<and> u_email u = m_email body
              \<and> u_password u = m_password body
              \<and> (\<forall>e. gravatar (m_email body) = Inl e \<longrightarrow> u_avatar u = None)
              \<and> (\<forall>url. gravatar (m_email body) = Inr url \<longrightarrow> u_avatar u = Some url)
              \<and> get_user_by_email (m_email body) (snd (create_user body gravatar now db)) = Some u"
    by blast
qed

text \<open>The second user signs up in the store that holds the first user, once with a
  failing and once with an answering avatar lookup.\<close>

theorem create_user_tolerates_avatar_failure_witness:
  "fst (create_user bob_signup (\<lambda>email. Inl (OtherException ''gravatar is down'')) 5 test_users_db)
     = Inr (user_b\<lparr>u_confirmed := False\<rparr>)
   \<and> fst (create_user bob_signup (\<lambda>email. Inr ''http://g/avatar'') 5 test_users_db)
     = Inr (user_b\<lparr>u_confirmed := False, u_avatar := Some ''http://g/avatar''\<rparr>)
   \<and> users (snd (create_user bob_signup (\<lambda>email. Inl (OtherException ''gravatar is down'')) 5
        test_users_db)) = [user_a, user_b\<lparr>u_confirmed := False\<rparr>]"
  using create_user_tolerates_avatar_failure [OF test_users_db_inv, of bob_signup
          "\<lambda>email. Inl (OtherException ''gravatar is down'')" 5]
        create_user_tolerates_avatar_failure [OF test_users_db_inv, of bob_signup
          "\<lambda>email. Inr ''http://g/avatar''" 5]
  by (simp add: create_user_def Let_def bob_signup_def test_users_db_def user_a_def user_b_def)

section \<open>Updating a contact\<close>

text \<open>
  C8, as stated: called by the owner on an existing contact, \<open>update_contact\<close> overwrites
  the six data fields. It does not when another contact holds the new email or phone: the
  first user updates their contact 2 with the email of their contact 1, the commit is
  rejected and nothing is overwritten.
\<close>

theorem update_conflict_rejected:
  "get_contact 2 user_a two_db = Some second_contact
   \<and> update_contact 2 (new_body\<lparr>b_email := ''test@example.com''\<rparr>) user_a two_db
       = (Inl IntegrityError, two_db)"
  by (simp add: get_contact_def update_contact_def two_db_def test_contact_def
        second_contact_def new_body_def user_a_def)

text \<open>
  C8, amended. In a well-formed store, when \<open>update_contact\<close> is called by the owner on an
  existing contact and no other contact holds the new email or phone, it overwrites the
  six data fields (name, surname, email, phone, birthday, description) of that row with
  the given values and returns the row, whose id and owner are unchanged; when another
  contact holds the new email or phone it fails with \<open>IntegrityError\<close> and changes
  nothing. In both cases the ids and the owners of all stored contacts are as before: an
  update never transfers a contact to another user.
\<close>

theorem update_contact_full_overwrite:
  assumes inv: "contacts_inv db"
      and mem: "c \<in> set (contacts db)"
      and cid: "c_id c = contact_id"
      and own: "c_user_id c = u_id user"
  shows "(\<not> (\<exists>r\<in>set (contacts db). c_id r \<noteq> contact_id \<and>
              (c_email r = b_email body \<or> c_phone r = b_phone body)) \<longrightarrow>
           (\<exists>c'. update_contact contact_id body user db
                   = (Inr (Some c'),
                      db\<lparr>contacts := map (\<lambda>r. if c_id r = contact_id then c' else r) (contacts db)\<rparr>)
              \<and> c_name c' = b_name body \<and> c_surname c' = b_surname body
              \<and> c_email c' = b_email body \<and> c_phone c' = b_phone body
              \<and> c_birthday c' = b_birthday body \<and> c_description c' = Some (b_description body)
              \<and> c_id c' = c_id c \<and> c_user_id c' = c_user_id c
              \<and> get_contact contact_id user (snd (update_contact contact_id body user db)) = Some c'))
       \<and> ((\<exists>r\<in>set (contacts db). c_id r \<noteq> contact_id \<and>
              (c_email r = b_email body \<or> c_phone r = b_phone body)) \<longrightarrow>
           update_contact contact_id body user db = (Inl IntegrityError, db))
       \<and> map c_id (contacts (snd (update_contact contact_id body user db))) = map c_id (contacts db)
       \<and> map c_user_id (contacts (snd (update_contact contact_id body user db)))
           = map c_user_id (contacts db)"
proof -
  let ?P = "\<lambda>x. c_id x = contact_id \<and> c_user_id x = u_id user"
  let ?conflict = "\<exists>r\<in>set (contacts db). c_id r \<noteq> contact_id \<and>
              (c_email r = b_email body \<or> c_phone r = b_phone body)"
  let ?f = "\<lambda>r. if c_id r = contact_id then assign_fields body r else r"
  have d: "distinct (map c_id (contacts db))"
    using inv by (simp add: contacts_inv_def)
  have found: "first (filter ?P (contacts db)) = Some c"
    using first_filter_unique [OF d mem own] cid by simp
  let ?lx = "list_ex (\<lambda>r. c_id r \<noteq> contact_id \<and>
              (c_email r = b_email body \<or> c_phone r = b_phone body)) (contacts db)"
  have lx: "?lx = ?conflict"
    by (simp add: list_ex_iff)
  have upd: "update_contact contact_id body user db
      = (if ?lx then (Inl IntegrityError, db)
         else (Inr (Some (assign_fields body c)), db\<lparr>contacts := map ?f (contacts db)\<rparr>))"
    by (simp add: update_contact_def found cid)
  have bad: "?conflict \<longrightarrow> update_contact contact_id body user db = (Inl IntegrityError, db)"
    using lx by (simp add: upd)
  have same: "map ?f (contacts db)
      = map (\<lambda>r. if c_id r = contact_id then assign_fields body c else r) (contacts db)"
  proof (rule map_cong [OF refl])
    fix x assume x: "x \<in> set (contacts db)"
    show "?f x = (if c_id x = contact_id then assign_fields body c else x)"
    proof (cases "c_id x = contact_id")
      case True
      with cid have "c_id x = c_id c" by simp
      with d x mem have "x = c" by (rule distinct_key_eq)
      with True show ?thesis by simp
    next
      case False
      then show ?thesis by simp
    qed
  qed
  have ok_upd: "update_contact contact_id body user db
      = (Inr (Some (assign_fields body c)), db\<lparr>contacts := map ?f (contacts db)\<rparr>)"
    if "\<not> ?conflict"
  proof -
    from that lx have "\<not> ?lx" by blast
    then show ?thesis by (simp add: upd)
  qed
  have good: "update_contact contact_id body user db
      = (Inr (Some (assign_fields body c)),
         db\<lparr>contacts := map (\<lambda>r. if c_id r = contact_id then assign_fields body c else r)
                           (contacts db)\<rparr>)"
    if "\<not> ?conflict"
    using ok_upd [OF that] same by simp
  have keep: "\<And>x. ?P (?f x) = ?P x" by simp
  have "filter ?P (map ?f (contacts db)) = map ?f (filter ?P (contacts db))"
    by (rule filter_map_invariant) (rule keep)
  then have "first (filter ?P (map ?f (contacts db))) = Some (?f c)"
    by (simp add: first_map found)
  then have after: "first (filter ?P (map ?f (contacts db))) = Some (assign_fields body c)"
    by (simp add: cid)
  have get: "get_contact contact_id user (snd (update_contact contact_id body user db))
        = Some (assign_fields body c)"
    if "\<not> ?conflict"
    using after by (simp add: ok_upd [OF that] get_contact_def)
  have fields: "c_name (assign_fields body c) = b_name body
      \<and> c_surname (assign_fields body c) = b_surname body
      \<and> c_email (assign_fields body c) = b_email body
      \<and> c_phone (assign_fields body c) = b_phone body
      \<and> c_birthday (assign_fields body c) = b_birthday body
      \<and> c_description (assign_fields body c) = Some (b_description body)
      \<and> c_id (assign_fields body c) = c_id c
      \<and> c_user_id (assign_fields body c) = c_user_id c"
    by (simp add: assign_fields_def)
  have ids: "map c_id (contacts (snd (update_contact contact_id body user db)))
      = map c_id (contacts db)"
    by (simp add: upd o_def if_distrib [of c_id] cong: if_cong)
  have uids: "map c_user_id (contacts (snd (update_contact contact_id body user db)))
      = map c_user_id (contacts db)"
    by (simp add: upd o_def if_distrib [of c_user_id] cong: if_cong)
  from good get fields have ok: "\<not> ?conflict \<longrightarrow>
           (\<exists>c'. update_contact contact_id body user db
                   = (Inr (Some c'),
                      db\<lparr>contacts := map (\<lambda>r. if c_id r = contact_id then c' else r) (contacts db)\<rparr>)
              \<and> c_name c' = b_name body \<and> c_surname c' = b_surname body
              \<and> c_email c' = b_email body \<and> c_phone c' = b_phone body
              \<and> c_birthday c' = b_birthday body \<and> c_description c' = Some (b_description body)
              \<and> c_id c' = c_id c \<and> c_user_id c' = c_user_id c
              \<and> get_contact contact_id user (snd (update_contact contact_id body user db)) = Some c')"
    by blast
  from ok bad ids uids show ?thesis by blast
qed

text \<open>The first user updates their contact 2: with fresh values, and with the phone of
  their contact 1.\<close>

theorem update_contact_full_overwrite_witness:
  "update_contact 2 new_body user_a two_db
     = (Inr (Some \<lparr>c_id = 2, c_name = ''Updated'', c_surname = ''Name'',
                    c_email = ''updated@example.com'', c_phone = ''+15550103'',
                    c_birthday = \<lparr>year = 1986, month = 3, day = 1\<rparr>,
                    c_description = Some ''moved'', c_user_id = 1\<rparr>),
        \<lparr>contacts = [test_contact,
                      \<lparr>c_id = 2, c_name = ''Updated'', c_surname = ''Name'',
                        c_email = ''updated@example.com'', c_phone = ''+15550103'',
                        c_birthday = \<lparr>year = 1986, month = 3, day = 1\<rparr>,
                        c_description = Some ''moved'', c_user_id = 1\<rparr>],
          contacts_seq = 3\<rparr>)
   \<and> update_contact 2 (new_body\<lparr>b_phone := ''+380971234567''\<rparr>) user_a two_db
     = (Inl IntegrityError, two_db)"
proof -
  have m: "second_contact \<in> set (contacts two_db)" by (simp add: two_db_def)
  have i: "c_id second_contact = 2" by (simp add: second_contact_def)
  have o: "c_user_id second_contact = u_id user_a"
    by (simp add: second_contact_def user_a_def)
  from update_contact_full_overwrite [OF two_db_inv m i o, of new_body]
       update_contact_full_overwrite [OF two_db_inv m i o, of "new_body\<lparr>b_phone := ''+380971234567''\<rparr>"]
  show ?thesis
    by (simp add: update_contact_def assign_fields_def two_db_def test_contact_def
          second_contact_def new_body_def user_a_def)
qed

section \<open>Create, get, remove\<close>

text \<open>
  C9, as stated: for every user and every valid contact body, \<open>create_contact\<close> returns a
  contact with a generated id. A body within the limits of the schema whose email is
  already stored gets no contact: the commit is rejected.
\<close>

theorem create_conflict_no_contact:
  "ContactModel_valid (test_body\<lparr>b_phone := ''+15550100''\<rparr>)
   \<and> create_contact (test_body\<lparr>b_phone := ''+15550100''\<rparr>) user_b test_db
       = (Inl IntegrityError, test_db)"
  by (simp add: ContactModel_valid_def create_contact_def test_body_def test_db_def
        test_contact_def Let_def)

text \<open>
  C9, amended. In a well-formed store, for every user and every valid contact body whose
  email and phone no stored contact has, \<open>create_contact\<close> returns a contact with a
  generated id that no stored contact had and with the fields of the body; \<open>get_contact\<close>
  with that id by the same user then returns that contact; \<open>remove_contact\<close> with that id
  returns it and removes it, after which \<open>get_contact\<close> with the id returns \<open>None\<close> and the
  stored contacts are those from before the creation.
\<close>

theorem create_get_remove_roundtrip:
  assumes inv: "contacts_inv db"
      and valid: "ContactModel_valid body"
      and email: "b_email body \<notin> set (map c_email (contacts db))"
      and phone: "b_phone body \<notin> set (map c_phone (contacts db))"
  shows "\<exists>c db1 db2.
           create_contact body user db = (Inr c, db1)
         \<and> c_id c = contacts_seq db \<and> c_id c \<notin> set (map c_id (contacts db))
         \<and> c_name c = b_name body \<and> c_surname c = b_surname body
         \<and> c_email c = b_email body \<and> c_phone c = b_phone body
         \<and> c_birthday c = b_birthday body \<and> c_description c = Some (b_description body)
         \<and> c_user_id c = u_id user
         \<and> get_contact (c_id c) user db1 = Some c
         \<and> remove_contact (c_id c) user db1 = (Inr (Some c), db2)
         \<and> get_contact (c_id c) user db2 = None
         \<and> contacts db2 = contacts db"
proof -
  define c where "c = \<lparr>c_id = contacts_seq db, c_name = b_name body,
      c_surname = b_surname body, c_email = b_email body, c_phone = b_phone body,
      c_birthday = b_birthday body, c_description = Some (b_description body),
      c_user_id = u_id user\<rparr>"
  define db1 where "db1 = db\<lparr>contacts := contacts db @ [c], contacts_seq := contacts_seq db + 1\<rparr>"
  define db2 where "db2 = db1\<lparr>contacts := filter (\<lambda>r. c_id r \<noteq> c_id c) (contacts db1)\<rparr>"
  let ?P = "\<lambda>x. c_id x = c_id c \<and> c_user_id x = u_id user"
  have fresh: "contacts_seq db \<notin> set (map c_id (contacts db))"
    using inv seq_id_fresh [of c_id "contacts_seq db" "contacts db"]
    by (simp add: contacts_inv_def)
  have cre: "create_contact body user db = (Inr c, db1)"
    using fresh email phone by (simp add: create_contact_def Let_def c_def db1_def)
  have old: "filter (\<lambda>x. c_id x = c_id c) (contacts db) = []"
    using fresh by (auto simp: filter_empty_conv c_def image_iff)
  then have oldP: "filter ?P (contacts db) = []"
    by (auto simp: filter_empty_conv)
  have fnd: "first (filter ?P (contacts db1)) = Some c"
    by (simp add: db1_def oldP) (simp add: c_def)
  have get1: "get_contact (c_id c) user db1 = Some c"
    by (simp add: get_contact_def fnd)
  have rem: "remove_contact (c_id c) user db1 = (Inr (Some c), db2)"
    by (simp add: remove_contact_def fnd db2_def)
  have rest: "filter (\<lambda>r. c_id r \<noteq> c_id c) (contacts db) = contacts db"
    using old by (auto simp: filter_empty_conv filter_id_conv)
  have rows2: "contacts db2 = contacts db"
    by (simp add: db2_def db1_def rest)
  have get2: "get_contact (c_id c) user db2 = None"
    by (simp add: get_contact_def rows2 oldP)
  have fields: "c_id c = contacts_seq db \<and> c_name c = b_name body \<and> c_surname c = b_surname body
         \<and> c_email c = b_email body \<and> c_phone c = b_phone body
         \<and> c_birthday c = b_birthday body \<and> c_description c = Some (b_description body)
         \<and> c_user_id c = u_id user"
    by (simp add: c_def)
  have nid: "c_id c \<notin> set (map c_id (contacts db))"
    using fresh by (simp add: c_def)
  from cre fields nid get1 rem get2 rows2 show ?thesis by blast
qed

text \<open>The scenario of the specification: the first user creates the contact
  \<open>Test Contact\<close> in the empty store, gets it, removes it, and gets nothing.\<close>

theorem create_get_remove_roundtrip_witness:
  "create_contact test_body user_a empty_contacts_db = (Inr test_contact, test_db)
   \<and> get_contact 1 user_a test_db = Some test_contact
   \<and> remove_contact 1 user_a test_db
       = (Inr (Some test_contact), \<lparr>contacts = [], contacts_seq = 2\<rparr>)
   \<and> get_contact 1 user_a \<lparr>contacts = [], contacts_seq = 2\<rparr> = None"
proof -
  have v: "ContactModel_valid test_body"
    by (simp add: ContactModel_valid_def test_body_def)
  have e: "b_email test_body \<notin> set (map c_email (contacts empty_contacts_db))"
    by (simp add: empty_contacts_db_def)
  have p: "b_phone test_body \<notin> set (map c_phone (contacts empty_contacts_db))"
    by (simp add: empty_contacts_db_def)
  from create_get_remove_roundtrip [OF empty_contacts_db_inv v e p, of user_a]
  show ?thesis
    by (simp add: create_contact_def get_contact_def remove_contact_def Let_def
          empty_contacts_db_def test_body_def test_contact_def test_db_def user_a_def)
qed

end
